theory Spec2Isabelle
  imports Main "HOL-Library.AList"
begin

section \<open>GASAT: a genetic algorithm with tabu search for SAT (SATSolver/GA.py)\<close>

text \<open>
  The development embeds the class \<open>GA\<close> of \<^verbatim>\<open>SATSolver/GA.py\<close>. Python integers are
  \<open>int\<close>, a clause is the list of its literals in order, the formula the list of its
  clauses. Exceptions are values of the type \<open>error\<close>; a function that can raise returns
  \<open>error + 'a\<close> with \<open>Inl\<close> for the exception.
\<close>

subsection \<open>Data\<close>

datatype error = ValueError | KeyError | TypeError | IndexError | AttributeError

type_synonym clause = "int list"

type_synonym formula = "clause list"

text \<open>
  Modelled from the spec: the class \<open>Individual\<close> (\<^verbatim>\<open>SATSolver/individual.py\<close>) is imported
  by GA.py but its file is not among the sources. Section 3 of the specification gives its
  state: a truth value and a \<^emph>\<open>defined\<close> flag per variable \<open>1..n\<close>, and a cached fitness
  with a validity flag. The tests assign the attributes \<open>data\<close> and \<open>defined\<close> as bit
  vectors, and GA.py reads \<open>isCacheValid\<close> and \<open>fitness\<close>. Variable \<open>b\<close> is stored at list
  position \<open>b - 1\<close>. A variable outside \<open>1..n\<close> is outside the contract of the class
  (section 3: every literal \<open>l\<close> has \<open>1 \<le> |l| \<le> n\<close>); the theorems below that depend on a
  write to a variable assume it in range.
\<close>

record individual =
  data :: "bool list"
  defined :: "bool list"
  isCacheValid :: bool
  fitness :: int

text \<open>
  Modelled from the spec: the accessors of \<open>Individual\<close>, section 4.1. \<open>get_defined\<close>
  returns a Boolean; \<open>set\<close> writes a bit and marks it defined; \<open>flip\<close> toggles the bit and
  marks it defined; \<open>set_defined\<close> marks the variable defined; each mutation invalidates
  the cached fitness (section 3).
\<close>

definition get :: "individual \<Rightarrow> int \<Rightarrow> bool" where
  "get ind b = data ind ! nat (b - 1)"

definition get_defined :: "individual \<Rightarrow> int \<Rightarrow> bool" where
  "get_defined ind b = defined ind ! nat (b - 1)"

definition set_ind :: "individual \<Rightarrow> int \<Rightarrow> bool \<Rightarrow> individual" where
  "set_ind ind b v =
     ind\<lparr>data := (data ind)[nat (b - 1) := v],
         defined := (defined ind)[nat (b - 1) := True],
         isCacheValid := False\<rparr>"

definition set_defined :: "individual \<Rightarrow> int \<Rightarrow> individual" where
  "set_defined ind b =
     ind\<lparr>defined := (defined ind)[nat (b - 1) := True], isCacheValid := False\<rparr>"

definition flip :: "individual \<Rightarrow> int \<Rightarrow> individual" where
  "flip ind b =
     ind\<lparr>data := (data ind)[nat (b - 1) := \<not> data ind ! nat (b - 1)],
         defined := (defined ind)[nat (b - 1) := True],
         isCacheValid := False\<rparr>"

subsection \<open>Clause satisfaction\<close>

text \<open>
  \<open>GA.sat\<close>: the loop over the atoms of the clause returns at the first atom that is true
  under the stored values.
\<close>

fun sat :: "individual \<Rightarrow> clause \<Rightarrow> bool" where
  "sat ind [] = False"
| "sat ind (atom # rest) =
     (if atom > 0
      then (if get ind atom then True else sat ind rest)
      else (if get ind (abs atom) = False then True else sat ind rest))"

text \<open>
  \<open>GA.sat_crossover\<close>: as \<open>sat\<close>, but each atom is first tested for being defined, and
  the function returns \<open>False\<close> at once at an atom whose variable is undefined.
\<close>

fun sat_crossover :: "individual \<Rightarrow> clause \<Rightarrow> bool" where
  "sat_crossover ind [] = False"
| "sat_crossover ind (atom # rest) =
     (if atom > 0
      then (if get_defined ind atom = False then False
            else if get ind atom then True
            else sat_crossover ind rest)
      else (if get_defined ind (abs atom) = False then False
            else if get ind (abs atom) = False then True
            else sat_crossover ind rest))"

text \<open>
  The truth of one literal under the stored values, as the claims word it: a positive
  literal is true when its variable is, a negative one when its variable is false.
\<close>

definition literal_true :: "individual \<Rightarrow> int \<Rightarrow> bool" where
  "literal_true ind l = (if l > 0 then get ind l else \<not> get ind (abs l))"

text \<open>
  The contract between an individual and a clause (section 3): the individual has a
  defined flag for each of its \<open>n\<close> values and every literal of the clause names a
  variable in \<open>1..n\<close>.
\<close>

definition variables_in_range :: "individual \<Rightarrow> clause \<Rightarrow> bool" where
  "variables_in_range ind c \<longleftrightarrow>
     length (defined ind) = length (data ind)
     \<and> list_all (\<lambda>l. 1 \<le> abs l \<and> abs l \<le> int (length (data ind))) c"

subsection \<open>The solver's state\<close>

text \<open>
  The attributes of a \<open>GA\<close> object that the embedded methods read or write. The observer
  set and the generation counter belong to the progress notification and the attribute
  that is only handed to the constructor of \<open>Individual\<close> is left out. The population and
  the sub-population are lists of references to \<open>Individual\<close> objects: the sub-population
  is a slice of the sorted population, so both lists name the same objects, and a write
  to the cache of one of them is seen through both. A reference is a natural number, the
  address of the object in a store (see \<open>replace\<close>).
\<close>

record ga =
  formula :: formula
  numberOfClauses :: int
  numberOfVariables :: int
  max_generations :: int
  population_size :: int
  sub_population_size :: int
  crossover_operator :: int
  tabu_list_length :: int
  max_flip :: int
  is_rvcf :: bool
  is_diversification :: bool
  max_false :: int
  rec :: int
  k :: int
  tabu :: "int list"
  population :: "nat list"
  sub_population :: "nat list"
  best :: "individual option"
  false_counts :: "int list"

text \<open>
  \<open>GA.__init__\<close> with the default values of its keyword parameters: the tabu list, the
  population and the sub-population start empty, \<open>best\<close> is \<open>None\<close> and there is one
  false-count \<open>0\<close> per clause.
\<close>

definition GA_init :: "formula \<Rightarrow> int \<Rightarrow> int \<Rightarrow> int \<Rightarrow> int \<Rightarrow> int \<Rightarrow> int \<Rightarrow> ga" where
  "GA_init formula' number_of_clauses number_of_variables tabu_list_length' max_false' rec' k' =
     \<lparr>formula = formula',
      numberOfClauses = number_of_clauses,
      numberOfVariables = number_of_variables,
      max_generations = 1000,
      population_size = 100,
      sub_population_size = 15,
      crossover_operator = 0,
      tabu_list_length = tabu_list_length',
      max_flip = 10000,
      is_rvcf = False,
      is_diversification = False,
      max_false = max_false',
      rec = rec',
      k = k',
      tabu = [],
      population = [],
      sub_population = [],
      best = None,
      false_counts = replicate (length formula') 0\<rparr>"

subsection \<open>Fitness and improvement\<close>

text \<open>
  \<open>GA.evaluate\<close>: the cached fitness when the cache is valid, else the number of clauses
  of the formula that \<open>sat\<close> rejects, counted by the loop \<open>evaluate_loop\<close>. The call also
  stores what it returns in the individual and marks the cache valid; \<open>evaluate_cache\<close>
  is the individual as the call leaves it. A function that evaluates an individual goes
  on with \<open>evaluate_cache\<close> of it: the tabu search in the individuals it returns or
  stores, \<open>corrective_clause\<close> in the parents it carries through its loop, and \<open>replace\<close>
  in the store that holds the objects of the population. By \<open>evaluate_evaluate_cache\<close>
  below the stored value is the one every later call returns.
\<close>

fun evaluate_loop :: "individual \<Rightarrow> formula \<Rightarrow> int \<Rightarrow> int" where
  "evaluate_loop ind [] num_unsatisfied_clauses = num_unsatisfied_clauses"
| "evaluate_loop ind (clause # rest) num_unsatisfied_clauses =
     evaluate_loop ind rest
       (if \<not> sat ind clause then num_unsatisfied_clauses + 1 else num_unsatisfied_clauses)"

definition evaluate :: "ga \<Rightarrow> individual \<Rightarrow> int" where
  "evaluate g ind =
     (if isCacheValid ind then fitness ind else evaluate_loop ind (formula g) 0)"

definition evaluate_cache :: "ga \<Rightarrow> individual \<Rightarrow> individual" where
  "evaluate_cache g ind = ind\<lparr>isCacheValid := True, fitness := evaluate g ind\<rparr>"

text \<open>
  \<open>GA.improvement\<close>: the fitness of the individual minus the fitness of a deep copy with
  the variable \<open>abs index\<close> flipped. A deep copy of a value is the value.
\<close>

definition improvement :: "ga \<Rightarrow> individual \<Rightarrow> int \<Rightarrow> int" where
  "improvement g ind index =
     (let original_individual_fitness = evaluate g ind;
          new_individual = flip ind (abs index)
      in original_individual_fitness - evaluate g new_individual)"

text \<open>
  The cache of an individual is coherent when a valid cache holds the count a fresh
  computation gives. Every individual built through the accessors is: each mutation
  invalidates the cache and only \<open>evaluate\<close> validates it.
\<close>

definition cache_coherent :: "ga \<Rightarrow> individual \<Rightarrow> bool" where
  "cache_coherent g ind \<longleftrightarrow>
     (isCacheValid ind \<longrightarrow> fitness ind = evaluate_loop ind (formula g) 0)"

subsection \<open>Helpers of the Python runtime\<close>

text \<open>
  Python's \<open>max(xs, key=f)\<close>: \<open>ValueError\<close> on an empty sequence, else the first element
  whose key no other element exceeds (a later element replaces the running maximum only
  when its key is strictly greater).
\<close>

fun max_key_loop :: "('a \<Rightarrow> int) \<Rightarrow> 'a \<Rightarrow> 'a list \<Rightarrow> 'a" where
  "max_key_loop key maxitem [] = maxitem"
| "max_key_loop key maxitem (item # rest) =
     max_key_loop key (if key item > key maxitem then item else maxitem) rest"

definition max_key :: "('a \<Rightarrow> int) \<Rightarrow> 'a list \<Rightarrow> error + 'a" where
  "max_key key xs = (case xs of [] \<Rightarrow> Inl ValueError | x # rest \<Rightarrow> Inr (max_key_loop key x rest))"

text \<open>
  A Python \<open>dict\<close> from integers to integers, as an association list in insertion order
  with one entry per key: \<open>map_of\<close> reads it, \<open>AList.update\<close> stores a value (a new key
  goes to the end), \<open>AList.delete\<close> removes a key and \<open>length\<close> is \<open>len\<close>. Reading a key
  that is absent raises \<open>KeyError\<close>.
\<close>

type_synonym dict = "(int \<times> int) list"

definition dict_get :: "dict \<Rightarrow> int \<Rightarrow> error + int" where
  "dict_get d key = (case map_of d key of None \<Rightarrow> Inl KeyError | Some v \<Rightarrow> Inr v)"

text \<open>The slice \<open>xs[:n]\<close>; a negative \<open>n\<close> counts from the end.\<close>

definition slice_to :: "'a list \<Rightarrow> int \<Rightarrow> 'a list" where
  "slice_to xs n = (if n \<ge> 0 then take (nat n) xs else take (length xs - nat (- n)) xs)"

text \<open>
  The module \<open>random\<close> is a source of draws that the code consumes in order; the list
  holds the draws still to come (and \<open>0\<close> for ever once it is used up). \<open>random.choice\<close>
  raises \<open>IndexError\<close> on an empty sequence.
\<close>

type_synonym rng = "nat list"

definition random_choice :: "'a list \<Rightarrow> rng \<Rightarrow> error + ('a \<times> rng)" where
  "random_choice xs draws =
     (if xs = [] then Inl IndexError
      else (case draws of
              [] \<Rightarrow> Inr (xs ! 0, [])
            | r # rest \<Rightarrow> Inr (xs ! (r mod length xs), rest)))"

subsection \<open>Crossover operators\<close>

text \<open>
  Modelled from the spec: \<open>Individual.allocate\<close> (section 4.1) gives every variable that is
  still undefined the value of the fitter parent, ties in favour of \<open>x\<close>; afterwards all
  variables are defined. The class has no access to the formula, so the fitness compared
  is the stored attribute; the parents the driver passes come from \<open>select\<close>, which has
  evaluated them.
\<close>

definition allocate :: "individual \<Rightarrow> individual \<Rightarrow> individual \<Rightarrow> individual" where
  "allocate z x y =
     (let fitter = (if fitness x \<le> fitness y then x else y)
      in z\<lparr>data := map (\<lambda>i. if defined z ! i then data z ! i else data fitter ! i)
                      [0..<length (data z)],
           defined := replicate (length (data z)) True,
           isCacheValid := False\<rparr>)"








text \<open>
  Modelled from the spec: an \<open>Individual\<close> is not callable (section 9: the source of
  Fleurent and Ferland "calls the parent as if it were a function"), so the call raises
  \<open>TypeError\<close>.
\<close>

definition call_individual :: "individual \<Rightarrow> int \<Rightarrow> error + bool" where
  "call_individual ind b = Inl TypeError"

text \<open>
  \<open>GA.fluerent_and_ferland\<close>. In the first branch the argument \<open>x(abs(clause[i]))\<close> of
  \<open>z.set\<close> is evaluated before the call of \<open>set\<close>; in the second branch
  \<open>abs(clause[i], y(abs(clause[i])))\<close> evaluates the call of \<open>y\<close> first and then calls
  \<open>abs\<close> with two arguments, a \<open>TypeError\<close> in either case.
\<close>

fun ff_copy_x :: "individual \<Rightarrow> individual \<Rightarrow> clause \<Rightarrow> error + individual" where
  "ff_copy_x x z [] = Inr z"
| "ff_copy_x x z (atom # rest) =
     (case call_individual x (abs atom) of
        Inl e \<Rightarrow> Inl e
      | Inr v \<Rightarrow> ff_copy_x x (set_defined (set_ind z (abs atom) v) (abs atom)) rest)"

fun ff_copy_y :: "individual \<Rightarrow> individual \<Rightarrow> clause \<Rightarrow> error + individual" where
  "ff_copy_y y z [] = Inr z"
| "ff_copy_y y z (atom # rest) =
     (case call_individual y (abs atom) of
        Inl e \<Rightarrow> Inl e
      | Inr v \<Rightarrow> Inl TypeError)"

fun fluerent_and_ferland_loop ::
  "individual \<Rightarrow> individual \<Rightarrow> individual \<Rightarrow> formula \<Rightarrow> error + individual" where
  "fluerent_and_ferland_loop x y z [] = Inr z"
| "fluerent_and_ferland_loop x y z (clause # rest) =
     (if sat x clause \<and> \<not> sat y clause
      then (case ff_copy_x x z clause of
              Inl e \<Rightarrow> Inl e
            | Inr z' \<Rightarrow> fluerent_and_ferland_loop x y z' rest)
      else if \<not> sat x clause \<and> sat y clause
      then (case ff_copy_y y z clause of
              Inl e \<Rightarrow> Inl e
            | Inr z' \<Rightarrow> fluerent_and_ferland_loop x y z' rest)
      else fluerent_and_ferland_loop x y z rest)"

definition fluerent_and_ferland ::
  "ga \<Rightarrow> individual \<Rightarrow> individual \<Rightarrow> individual \<Rightarrow> error + individual" where
  "fluerent_and_ferland g z x y =
     (case fluerent_and_ferland_loop x y z (formula g) of
        Inl e \<Rightarrow> Inl e
      | Inr z' \<Rightarrow> Inr (allocate z' x y))"

subsection \<open>Population\<close>

text \<open>
  The members of the population are objects that \<open>replace\<close> mutates through \<open>evaluate\<close>.
  The store maps each reference to the \<open>Individual\<close> it names.
\<close>

type_synonym heap = "nat \<Rightarrow> individual"

text \<open>
  \<open>max(self.sub_population, key=self.evaluate)\<close>: the key is computed once for each
  item, in order, and each computation fills the cache of the item in the store; the
  first item with the greatest key is the result, and \<open>max\<close> of an empty list raises
  \<open>ValueError\<close>.
\<close>

fun max_evaluate_loop :: "ga \<Rightarrow> nat list \<Rightarrow> nat \<Rightarrow> int \<Rightarrow> heap \<Rightarrow> nat \<times> heap" where
  "max_evaluate_loop g [] maxitem maxval h = (maxitem, h)"
| "max_evaluate_loop g (item # rest) maxitem maxval h =
     (let val = evaluate g (h item);
          h' = h(item := evaluate_cache g (h item))
      in if val > maxval
         then max_evaluate_loop g rest item val h'
         else max_evaluate_loop g rest maxitem maxval h')"

definition max_evaluate :: "ga \<Rightarrow> nat list \<Rightarrow> heap \<Rightarrow> error + (nat \<times> heap)" where
  "max_evaluate g items h =
     (case items of
        [] \<Rightarrow> Inl ValueError
      | first # rest \<Rightarrow>
          Inr (max_evaluate_loop g rest first (evaluate g (h first))
                 (h(first := evaluate_cache g (h first)))))"

text \<open>
  \<open>GA.replace\<close>. The condition evaluates the weakest individual and the child again,
  which fills the child's cache. \<open>list.remove\<close> raises \<open>ValueError\<close> when the element is
  not in the list and removes its first occurrence otherwise. Modelled from the spec:
  an \<open>Individual\<close> (section 3) has no equality of its own, so \<open>list.remove\<close> finds the
  object itself, that is, its reference.
\<close>

definition replace :: "ga \<Rightarrow> heap \<Rightarrow> nat \<Rightarrow> error + (ga \<times> heap)" where
  "replace g h child =
     (case max_evaluate g (sub_population g) h of
        Inl e \<Rightarrow> Inl e
      | Inr (weakest_individual, h1) \<Rightarrow>
          let weakest_fitness = evaluate g (h1 weakest_individual);
              h2 = h1(weakest_individual := evaluate_cache g (h1 weakest_individual));
              child_fitness = evaluate g (h2 child);
              h3 = h2(child := evaluate_cache g (h2 child))
          in if \<not> weakest_fitness > child_fitness
             then (if weakest_individual \<in> set (population g)
                   then Inr (g\<lparr>population := remove1 weakest_individual (population g) @ [child]\<rparr>, h3)
                   else Inl ValueError)
             else Inr (g, h3))"

subsection \<open>Tabu search\<close>

text \<open>
  A choice function, the parameter \<open>choose_function\<close> of \<open>standard_tabu\<close>: it reads the
  solver and the current individual, consumes random draws, and returns a pair of the
  chosen position and the list it was chosen from, or raises.
\<close>

type_synonym chooser = "ga \<Rightarrow> individual \<Rightarrow> rng \<Rightarrow> error + ((int \<times> int list) \<times> rng)"

text \<open>
  \<open>GA.standard_tabu_choose\<close>. \<open>best_sigma\<close> is \<open>None\<close> for \<open>Decimal('-Infinity')\<close>, which
  every gain exceeds. The aspiration test evaluates \<open>self.best\<close> only for a position in
  the tabu list, and fails with \<open>AttributeError\<close> when \<open>self.best\<close> is still \<open>None\<close>.
\<close>

fun standard_tabu_choose_loop ::
  "ga \<Rightarrow> individual \<Rightarrow> int list \<Rightarrow> int list \<Rightarrow> int option \<Rightarrow> error + int list" where
  "standard_tabu_choose_loop g assignment [] positions best_sigma = Inr positions"
| "standard_tabu_choose_loop g assignment (position # rest) positions best_sigma =
     (let temp = flip assignment position in
      case (if position \<notin> set (tabu g) then Inr True
            else (case best g of
                    None \<Rightarrow> Inl AttributeError
                  | Some b \<Rightarrow> Inr (evaluate g temp < evaluate g b))) of
        Inl e \<Rightarrow> Inl e
      | Inr considered \<Rightarrow>
          if considered
          then (let gain = improvement g assignment position in
                if (case best_sigma of None \<Rightarrow> True | Some sigma \<Rightarrow> gain > sigma)
                then standard_tabu_choose_loop g assignment rest [position] (Some gain)
                else if best_sigma = Some gain
                then standard_tabu_choose_loop g assignment rest (positions @ [position]) best_sigma
                else standard_tabu_choose_loop g assignment rest positions best_sigma)
          else if best_sigma = None
          then standard_tabu_choose_loop g assignment rest (positions @ [position]) best_sigma
          else standard_tabu_choose_loop g assignment rest positions best_sigma)"

definition standard_tabu_choose :: chooser where
  "standard_tabu_choose g assignment draws =
     (case standard_tabu_choose_loop g assignment
             (map int [1..<length (data assignment) + 1]) [] None of
        Inl e \<Rightarrow> Inl e
      | Inr positions \<Rightarrow>
          (case random_choice positions draws of
             Inl e \<Rightarrow> Inl e
           | Inr (p, draws') \<Rightarrow> Inr ((p, positions), draws')))"

text \<open>
  \<open>GA.check_flip\<close>. The individual and the dictionary are mutated in place: the function
  returns them as the call leaves them. The comprehension compares the signed literal
  \<open>c\<close> with the keys, which are variables; \<open>max\<close> of the remaining literals raises
  \<open>ValueError\<close> when none remains, and the handler re-raises it. The calls of
  \<open>improvement\<close> leave the individual's cache filled.
\<close>

definition check_flip ::
  "ga \<Rightarrow> individual \<Rightarrow> clause \<Rightarrow> dict \<Rightarrow> error + (individual \<times> dict)" where
  "check_flip g individual clause iteration_dict =
     (let temp_clause = filter (\<lambda>c. map_of iteration_dict c = None) clause in
      case max_key (\<lambda>c. improvement g individual c) temp_clause of
        Inl e \<Rightarrow> Inl e
      | Inr value \<Rightarrow>
          let pos = abs value;
              individual' = evaluate_cache g individual
          in (case map_of iteration_dict pos of
                Some n \<Rightarrow>
                  if n < k g
                  then Inr (flip individual' pos, AList.update pos (n + 1) iteration_dict)
                  else Inr (individual', AList.delete pos iteration_dict)
              | None \<Rightarrow> Inr (flip individual' pos, AList.update pos 1 iteration_dict)))"

text \<open>
  \<open>GA.tabu_with_diversification\<close>, the caller of \<open>check_flip\<close>: \<open>twd_count_false\<close> is its
  first loop (counting the clauses found false), \<open>twd_clauses\<close> the loop over the clauses
  that reached \<open>max_false\<close>, \<open>twd_rec\<close> the loop \<open>for _ in range(self.rec)\<close> and
  \<open>twd_nested\<close> the loop over \<open>non_false_clauses\<close>. No handler stands between a call of
  \<open>check_flip\<close> and the caller.
\<close>

fun twd_count_false ::
  "ga \<Rightarrow> individual \<Rightarrow> nat list \<Rightarrow> clause list \<Rightarrow> error + (ga \<times> clause list)" where
  "twd_count_false g individual [] false_clauses = Inr (g, false_clauses)"
| "twd_count_false g individual (i # rest) false_clauses =
     (if \<not> sat individual (formula g ! i)
      then (if i < length (false_counts g)
            then (let g1 = g\<lparr>false_counts := (false_counts g)[i := false_counts g ! i + 1]\<rparr> in
                  if false_counts g1 ! i = max_false g1
                  then twd_count_false (g1\<lparr>false_counts := (false_counts g1)[i := 0]\<rparr>)
                         individual rest (false_clauses @ [formula g ! i])
                  else twd_count_false g1 individual rest false_clauses)
            else Inl IndexError)
      else twd_count_false g individual rest false_clauses)"

fun twd_nested ::
  "ga \<Rightarrow> clause list \<Rightarrow> individual \<times> dict \<Rightarrow> error + (individual \<times> dict)" where
  "twd_nested g [] st = Inr st"
| "twd_nested g (nested_clause # rest) st =
     (case check_flip g (fst st) nested_clause (snd st) of
        Inl e \<Rightarrow> Inl e
      | Inr st' \<Rightarrow> twd_nested g rest st')"

fun twd_rec ::
  "nat \<Rightarrow> ga \<Rightarrow> individual \<Rightarrow> clause \<Rightarrow> individual \<times> dict \<Rightarrow> error + (individual \<times> dict)" where
  "twd_rec 0 g individual clause st = Inr st"
| "twd_rec (Suc n) g individual clause st =
     (let non_false_clauses =
            map (\<lambda>i. formula g ! i)
              (filter (\<lambda>i. sat (fst st) clause \<and> \<not> sat individual clause)
                 [0..<length (formula g)])
      in case twd_nested g non_false_clauses st of
           Inl e \<Rightarrow> Inl e
         | Inr st' \<Rightarrow> twd_rec n g individual clause st')"

fun twd_clauses ::
  "ga \<Rightarrow> individual \<Rightarrow> clause list \<Rightarrow> individual \<times> dict \<Rightarrow> error + (individual \<times> dict)" where
  "twd_clauses g individual [] st = Inr st"
| "twd_clauses g individual (clause # rest) st =
     (case check_flip g (fst st) clause (snd st) of
        Inl e \<Rightarrow> Inl e
      | Inr st1 \<Rightarrow>
          (case twd_rec (nat (rec g)) g individual clause st1 of
             Inl e \<Rightarrow> Inl e
           | Inr st2 \<Rightarrow> twd_clauses g individual rest st2))"

definition tabu_with_diversification :: "ga \<Rightarrow> individual \<Rightarrow> error + (individual \<times> ga)" where
  "tabu_with_diversification g individual =
     (case twd_count_false g individual [0..<length (formula g)] [] of
        Inl e \<Rightarrow> Inl e
      | Inr (g1, false_clauses) \<Rightarrow>
          (case twd_clauses g1 individual false_clauses (individual, []) of
             Inl e \<Rightarrow> Inl e
           | Inr (individual_temp, forbidden) \<Rightarrow> Inr (individual_temp, g1)))"

text \<open>
  The local variables of \<open>GA.standard_tabu\<close> that live across the iterations of its
  \<open>while\<close> loop.
\<close>

record tabu_frame =
  individual_in :: individual
  num_flips :: int
  forbidden_flips :: dict

text \<open>
  The aging loop of \<open>standard_tabu\<close> (it occurs twice in the source), over
  \<open>index\<close> in \<open>range(len(forbidden_flips))\<close>. The statement
  \<open>forbidden_flips[forbidden_flips[index]] += 1\<close> reads the dictionary at the key
  \<open>index\<close>, then at the key found there, and stores the incremented value; the test
  against \<open>k\<close> and the \<open>del\<close> read the dictionary again. Each read of an absent key
  raises \<open>KeyError\<close>.
\<close>

fun age_forbidden_flips :: "int \<Rightarrow> nat list \<Rightarrow> dict \<Rightarrow> error + dict" where
  "age_forbidden_flips kk [] d = Inr d"
| "age_forbidden_flips kk (index # rest) d =
     (case dict_get d (int index) of
        Inl e \<Rightarrow> Inl e
      | Inr j \<Rightarrow>
     (case dict_get d j of
        Inl e \<Rightarrow> Inl e
      | Inr n \<Rightarrow>
     (let d1 = AList.update j (n + 1) d in
      case dict_get d1 (int index) of
        Inl e \<Rightarrow> Inl e
      | Inr j' \<Rightarrow>
     (case dict_get d1 j' of
        Inl e \<Rightarrow> Inl e
      | Inr n' \<Rightarrow>
          if n' = kk
          then (case dict_get d1 (int index) of
                  Inl e \<Rightarrow> Inl e
                | Inr j'' \<Rightarrow>
                    if map_of d1 j'' = None then Inl KeyError
                    else age_forbidden_flips kk rest (AList.delete j'' d1))
          else age_forbidden_flips kk rest d1))))"

text \<open>
  The cascading loop of the diversification branch of \<open>standard_tabu\<close>:
  \<open>tabu_nested_flip\<close> is the body of the loop over \<open>non_false_clauses\<close> (the filtered
  \<open>temp_clause\<close>, \<open>max\<close>, and the guarded flip with its aging loop), \<open>tabu_nested\<close> that
  loop and \<open>tabu_rec\<close> the loop \<open>for _ in range(self.rec)\<close>. The condition of the
  comprehension reads clause \<open>i\<close> of the enclosing loop for every index \<open>x\<close>.
\<close>

definition tabu_nested_flip ::
  "ga \<Rightarrow> individual \<times> dict \<Rightarrow> clause \<Rightarrow> error + (individual \<times> dict)" where
  "tabu_nested_flip g st nested_clause =
     (let individual_temp = fst st;
          forbidden = snd st;
          temp_clause = filter (\<lambda>c. map_of forbidden c = None) nested_clause
      in case max_key (\<lambda>c. improvement g individual_temp c) temp_clause of
           Inl e \<Rightarrow> Inl e
         | Inr value \<Rightarrow>
             let pos = abs value;
                 individual_temp' = evaluate_cache g individual_temp
             in if map_of forbidden pos = None
                then (let forbidden1 = AList.update pos 0 forbidden in
                      case age_forbidden_flips (k g) [0..<length forbidden1] forbidden1 of
                        Inl e \<Rightarrow> Inl e
                      | Inr forbidden2 \<Rightarrow> Inr (flip individual_temp' pos, forbidden2))
                else Inr (individual_temp', forbidden))"

fun tabu_nested ::
  "ga \<Rightarrow> clause list \<Rightarrow> individual \<times> dict \<Rightarrow> error + (individual \<times> dict)" where
  "tabu_nested g [] st = Inr st"
| "tabu_nested g (nested_clause # rest) st =
     (case tabu_nested_flip g st nested_clause of
        Inl e \<Rightarrow> Inl e
      | Inr st' \<Rightarrow> tabu_nested g rest st')"

fun tabu_rec ::
  "nat \<Rightarrow> ga \<Rightarrow> nat \<Rightarrow> individual \<Rightarrow> individual \<times> dict \<Rightarrow> error + (individual \<times> dict)" where
  "tabu_rec 0 g i individual_in' st = Inr st"
| "tabu_rec (Suc n) g i individual_in' st =
     (let non_false_clauses =
            map (\<lambda>x. formula g ! x)
              (filter (\<lambda>x. sat (fst st) (formula g ! i) \<and> \<not> sat individual_in' (formula g ! i))
                 [0..<length (formula g)])
      in case tabu_nested g non_false_clauses st of
           Inl e \<Rightarrow> Inl e
         | Inr st' \<Rightarrow> tabu_rec n g i individual_in' st')"

text \<open>
  The body of the loop over the clause indices in the diversification branch:
  the false-count of an unsatisfied clause is incremented, and when it reaches
  \<open>max_false\<close> the variable of the literal with the greatest improvement is flipped in a
  copy, unless it is a key of \<open>forbidden_flips\<close>; then the cascading loop runs and the
  copy becomes the current individual. \<open>tabu_diversify\<close> is the loop.
\<close>

definition tabu_diversify_clause :: "ga \<Rightarrow> tabu_frame \<Rightarrow> nat \<Rightarrow> error + (ga \<times> tabu_frame)" where
  "tabu_diversify_clause g fr i =
     (if \<not> sat (individual_in fr) (formula g ! i)
      then (if i < length (false_counts g)
            then (let g1 = g\<lparr>false_counts := (false_counts g)[i := false_counts g ! i + 1]\<rparr> in
                  if false_counts g1 ! i = max_false g1
                  then (case max_key (\<lambda>c. improvement g1 (individual_in fr) (abs c))
                               (formula g1 ! i) of
                          Inl e \<Rightarrow> Inl e
                        | Inr value \<Rightarrow>
                            let pos = abs value;
                                current = evaluate_cache g1 (individual_in fr);
                                free = (map_of (forbidden_flips fr) pos = None);
                                forbidden = (if free then AList.update pos 0 (forbidden_flips fr)
                                             else forbidden_flips fr);
                                individual_temp = (if free then flip current pos else current);
                                g2 = (if free then g1\<lparr>false_counts := (false_counts g1)[i := 0]\<rparr>
                                      else g1)
                            in (case tabu_rec (nat (rec g2)) g2 i current
                                       (individual_temp, forbidden) of
                                  Inl e \<Rightarrow> Inl e
                                | Inr (individual_temp', forbidden') \<Rightarrow>
                                    Inr (g2, fr\<lparr>individual_in := individual_temp',
                                                forbidden_flips := forbidden'\<rparr>)))
                  else Inr (g1, fr))
            else Inl IndexError)
      else Inr (g, fr))"

fun tabu_diversify :: "ga \<Rightarrow> tabu_frame \<Rightarrow> nat list \<Rightarrow> error + (ga \<times> tabu_frame)" where
  "tabu_diversify g fr [] = Inr (g, fr)"
| "tabu_diversify g fr (i # rest) =
     (case tabu_diversify_clause g fr i of
        Inl e \<Rightarrow> Inl e
      | Inr (g', fr') \<Rightarrow> tabu_diversify g' fr' rest)"

text \<open>
  The first half of an iteration of the \<open>while\<close> loop: when the chosen position is not
  in the tabu list, a copy of the current individual is flipped there, \<open>best\<close> is
  updated, the flip counter is incremented, the forbidden flips are aged when
  diversification is on, and the copy becomes the current individual. Nothing is added
  to \<open>self.tabu\<close>.
\<close>

definition tabu_flip :: "ga \<Rightarrow> tabu_frame \<Rightarrow> int \<times> int list \<Rightarrow> error + (ga \<times> tabu_frame)" where
  "tabu_flip g fr index =
     (if fst index \<notin> set (tabu g)
      then (let individual_temp = flip (individual_in fr) (fst index) in
            case best g of
              None \<Rightarrow> Inl AttributeError
            | Some b \<Rightarrow>
                let g1 = (if evaluate g individual_temp < evaluate g b
                          then g\<lparr>best := Some (evaluate_cache g individual_temp)\<rparr>
                          else g\<lparr>best := Some (evaluate_cache g b)\<rparr>)
                in (case (if is_diversification g
                          then age_forbidden_flips (k g) [0..<length (forbidden_flips fr)]
                                 (forbidden_flips fr)
                          else Inr (forbidden_flips fr)) of
                      Inl e \<Rightarrow> Inl e
                    | Inr forbidden \<Rightarrow>
                        Inr (g1, \<lparr>individual_in = evaluate_cache g individual_temp,
                                  num_flips = num_flips fr + 1,
                                  forbidden_flips = forbidden\<rparr>)))
      else Inr (g, fr))"

text \<open>One iteration of the \<open>while\<close> loop of \<open>standard_tabu\<close>.\<close>

definition tabu_iteration ::
  "chooser \<Rightarrow> ga \<Rightarrow> tabu_frame \<Rightarrow> rng \<Rightarrow> error + (ga \<times> tabu_frame \<times> rng)" where
  "tabu_iteration choose_function g fr draws =
     (case choose_function g (individual_in fr) draws of
        Inl e \<Rightarrow> Inl e
      | Inr (index, draws') \<Rightarrow>
          (case tabu_flip g fr index of
             Inl e \<Rightarrow> Inl e
           | Inr (g1, fr1) \<Rightarrow>
               if is_diversification g1
               then (case tabu_diversify g1 fr1 [0..<length (formula g1)] of
                       Inl e \<Rightarrow> Inl e
                     | Inr (g2, fr2) \<Rightarrow> Inr (g2, fr2, draws'))
               else Inr (g1, fr1, draws')))"

text \<open>
  The \<open>while\<close> loop. An iteration whose chosen position is in the tabu list changes
  nothing, so the loop need not terminate; the first argument bounds the number of
  iterations and \<open>None\<close> says that the bound was reached.
\<close>

fun standard_tabu_loop ::
  "nat \<Rightarrow> chooser \<Rightarrow> ga \<Rightarrow> tabu_frame \<Rightarrow> rng
     \<Rightarrow> (error + (ga \<times> tabu_frame \<times> rng)) option" where
  "standard_tabu_loop 0 choose_function g fr draws = None"
| "standard_tabu_loop (Suc fuel) choose_function g fr draws =
     (case best g of
        None \<Rightarrow> Some (Inl AttributeError)
      | Some b \<Rightarrow>
          let g' = g\<lparr>best := Some (evaluate_cache g b)\<rparr> in
          if \<not> (evaluate g b = 0) \<and> max_flip g > num_flips fr
          then (case tabu_iteration choose_function g' fr draws of
                  Inl e \<Rightarrow> Some (Inl e)
                | Inr (g2, fr2, draws2) \<Rightarrow> standard_tabu_loop fuel choose_function g2 fr2 draws2)
          else Some (Inr (g', fr, draws)))"

text \<open>
  \<open>GA.standard_tabu\<close>. The body has no \<open>return\<close> statement: when the loop ends the call
  returns Python's \<open>None\<close>, the first component of the result. \<open>self.best\<close> and the
  parameter are one object, whose cache the first test of the loop condition fills.
\<close>

definition standard_tabu ::
  "nat \<Rightarrow> ga \<Rightarrow> individual \<Rightarrow> chooser \<Rightarrow> rng
     \<Rightarrow> (error + (individual option \<times> ga \<times> rng)) option" where
  "standard_tabu fuel g individual_in' choose_function draws =
     (let g1 = g\<lparr>tabu := slice_to (tabu g) (tabu_list_length g), best := Some individual_in'\<rparr>;
          fr = \<lparr>individual_in = evaluate_cache g1 individual_in', num_flips = 0, forbidden_flips = []\<rparr>
      in case standard_tabu_loop fuel choose_function g1 fr draws of
           None \<Rightarrow> None
         | Some (Inl e) \<Rightarrow> Some (Inl e)
         | Some (Inr (g2, fr2, draws2)) \<Rightarrow> Some (Inr (None, g2, draws2)))"

section \<open>Properties\<close>

subsection \<open>Clause satisfaction\<close>

lemma sat_iff_literal: "sat ind c \<longleftrightarrow> (\<exists>l \<in> set c. literal_true ind l)"
  by (induction c) (auto simp: literal_true_def)

lemma sat_data_cong:
  assumes "data X = data Y"
  shows "sat X c = sat Y c"
  using assms by (induction c) (simp_all add: get_def)

text \<open>
  Claim C10. For every clause and any two individuals with the same vector of truth
  values, whatever their defined flags (and cached fitness), \<open>sat\<close> returns the same
  result: it reads the stored values only.
\<close>

theorem sat_reads_values_only:
  "data X = data Y \<Longrightarrow> sat X c = sat Y c"
  by (rule sat_data_cong)

theorem sat_reads_values_only_witness:
  "data \<lparr>data = [True, False], defined = [False, False], isCacheValid = False, fitness = 0\<rparr>
     = data \<lparr>data = [True, False], defined = [True, True], isCacheValid = True, fitness = 3\<rparr>
   \<and> sat \<lparr>data = [True, False], defined = [False, False], isCacheValid = False, fitness = 0\<rparr> [2, 1]
     = sat \<lparr>data = [True, False], defined = [True, True], isCacheValid = True, fitness = 3\<rparr> [2, 1]
   \<and> sat \<lparr>data = [True, False], defined = [False, False], isCacheValid = False, fitness = 0\<rparr> [2, 1]"
  using sat_reads_values_only
    [of "\<lparr>data = [True, False], defined = [False, False], isCacheValid = False, fitness = 0\<rparr>"
        "\<lparr>data = [True, False], defined = [True, True], isCacheValid = True, fitness = 3\<rparr>"
        "[2, 1]"]
  by (simp add: get_def)

lemma sat_crossover_step:
  "sat_crossover Z (a # c) \<longleftrightarrow>
     get_defined Z (abs a) \<and> (literal_true Z a \<or> sat_crossover Z c)"
  by (auto simp: literal_true_def)

lemma sat_crossover_prefix:
  "sat_crossover Z c \<longleftrightarrow>
     (\<exists>i<length c. literal_true Z (c ! i)
        \<and> list_all (\<lambda>l. get_defined Z (abs l)) (take (Suc i) c))"
proof (induction c)
  case Nil
  show ?case by simp
next
  case (Cons a c)
  show ?case
  proof
    assume "sat_crossover Z (a # c)"
    then have d: "get_defined Z (abs a)" and t: "literal_true Z a \<or> sat_crossover Z c"
      by (simp_all only: sat_crossover_step)
    from t show "\<exists>i<length (a # c). literal_true Z ((a # c) ! i) \<and>
        list_all (\<lambda>l. get_defined Z (abs l)) (take (Suc i) (a # c))"
    proof
      assume "literal_true Z a"
      with d show ?thesis by (intro exI[of _ 0]) simp
    next
      assume "sat_crossover Z c"
      with Cons.IH obtain i where "i < length c" "literal_true Z (c ! i)"
        "list_all (\<lambda>l. get_defined Z (abs l)) (take (Suc i) c)" by blast
      with d show ?thesis by (intro exI[of _ "Suc i"]) simp
    qed
  next
    assume "\<exists>i<length (a # c). literal_true Z ((a # c) ! i) \<and>
        list_all (\<lambda>l. get_defined Z (abs l)) (take (Suc i) (a # c))"
    then obtain i where i: "i < length (a # c)" "literal_true Z ((a # c) ! i)"
        "list_all (\<lambda>l. get_defined Z (abs l)) (take (Suc i) (a # c))" by blast
    then have d: "get_defined Z (abs a)" by simp
    show "sat_crossover Z (a # c)"
    proof (cases i)
      case 0
      with i d show ?thesis by (simp only: sat_crossover_step) simp
    next
      case (Suc j)
      with i have "j < length c" "literal_true Z (c ! j)"
        "list_all (\<lambda>l. get_defined Z (abs l)) (take (Suc j) c)" by simp_all
      with Cons.IH have "sat_crossover Z c" by blast
      with d show ?thesis by (simp only: sat_crossover_step) simp
    qed
  qed
qed

text \<open>
  Claim C3, as the code has it. \<open>sat_crossover\<close> answers \<open>False\<close> at the first literal
  whose variable is undefined and does not look at the later literals: the clause counts
  as satisfied iff some literal is true under the values and the variables of that
  literal and of every literal before it in the clause are defined.
\<close>

theorem sat_crossover_defined_prefix:
  assumes "variables_in_range Z c"
  shows "sat_crossover Z c \<longleftrightarrow>
     (\<exists>i<length c. literal_true Z (c ! i)
        \<and> list_all (\<lambda>l. get_defined Z (abs l)) (take (Suc i) c))"
  by (rule sat_crossover_prefix)

theorem sat_crossover_defined_prefix_witness:
  "variables_in_range
     \<lparr>data = [False, True], defined = [True, True], isCacheValid = False, fitness = 0\<rparr> [1, 2]
   \<and> sat_crossover
     \<lparr>data = [False, True], defined = [True, True], isCacheValid = False, fitness = 0\<rparr> [1, 2]
   \<and> variables_in_range
     \<lparr>data = [False, True], defined = [False, True], isCacheValid = False, fitness = 0\<rparr> [1, 2]
   \<and> \<not> sat_crossover
     \<lparr>data = [False, True], defined = [False, True], isCacheValid = False, fitness = 0\<rparr> [1, 2]"
proof -
  have r1: "variables_in_range
     \<lparr>data = [False, True], defined = [True, True], isCacheValid = False, fitness = 0\<rparr> [1, 2]"
    by (simp add: variables_in_range_def)
  have r2: "variables_in_range
     \<lparr>data = [False, True], defined = [False, True], isCacheValid = False, fitness = 0\<rparr> [1, 2]"
    by (simp add: variables_in_range_def)
  from sat_crossover_defined_prefix[OF r1] sat_crossover_defined_prefix[OF r2] r1 r2
  show ?thesis
    by (simp add: get_def get_defined_def literal_true_def)
qed

text \<open>
  Claim C3 as stated fails: in the clause \<open>(1, 2)\<close> the literal \<open>2\<close> has a defined variable
  and is true, yet \<open>sat_crossover\<close> answers \<open>False\<close>, because variable \<open>1\<close> before it is
  undefined.
\<close>

theorem sat_crossover_stops_at_undefined:
  "variables_in_range
     \<lparr>data = [False, True], defined = [False, True], isCacheValid = False, fitness = 0\<rparr> [1, 2]
   \<and> get_defined \<lparr>data = [False, True], defined = [False, True], isCacheValid = False, fitness = 0\<rparr> 2
   \<and> literal_true \<lparr>data = [False, True], defined = [False, True], isCacheValid = False, fitness = 0\<rparr> 2
   \<and> \<not> sat_crossover \<lparr>data = [False, True], defined = [False, True], isCacheValid = False, fitness = 0\<rparr> [1, 2]"
  by (simp add: get_def get_defined_def literal_true_def variables_in_range_def)

text \<open>
  On a clause whose variables are all defined, \<open>sat_crossover\<close> and \<open>sat\<close> agree; in
  particular a clause that a complete individual satisfies is satisfied for the
  crossover too.
\<close>

theorem sat_crossover_agrees_with_sat_when_defined:
  assumes "list_all (\<lambda>l. get_defined X (abs l)) c"
  shows "sat_crossover X c = sat X c"
proof -
  have step: "sat X (a # r) \<longleftrightarrow> literal_true X a \<or> sat X r" for a r
    by (auto simp: literal_true_def)
  from assms show ?thesis
  proof (induction c)
    case Nil
    show ?case by simp
  next
    case (Cons a c)
    then have "get_defined X (abs a)" and "sat_crossover X c = sat X c" by simp_all
    then show ?case by (simp only: sat_crossover_step step) simp
  qed
qed

theorem sat_crossover_agrees_with_sat_when_defined_witness:
  "list_all (\<lambda>l. get_defined
       \<lparr>data = [False, True], defined = [True, True], isCacheValid = False, fitness = 0\<rparr> (abs l)) [1, -2]
   \<and> sat_crossover
       \<lparr>data = [False, True], defined = [True, True], isCacheValid = False, fitness = 0\<rparr> [1, -2]
     = sat \<lparr>data = [False, True], defined = [True, True], isCacheValid = False, fitness = 0\<rparr> [1, -2]"
proof -
  have d: "list_all (\<lambda>l. get_defined
       \<lparr>data = [False, True], defined = [True, True], isCacheValid = False, fitness = 0\<rparr> (abs l)) [1, -2]"
    by (simp add: get_defined_def)
  from sat_crossover_agrees_with_sat_when_defined[OF d] d show ?thesis by simp
qed

subsection \<open>Fitness and improvement\<close>

lemma evaluate_loop_count:
  "evaluate_loop ind F n = n + int (length (filter (\<lambda>c. \<not> sat ind c) F))"
  by (induction F arbitrary: n) simp_all

lemma evaluate_loop_data_cong:
  "data X = data Y \<Longrightarrow> evaluate_loop X F n = evaluate_loop Y F n"
  by (simp add: evaluate_loop_count sat_data_cong[of X Y])

lemma evaluate_evaluate_cache: "evaluate g (evaluate_cache g ind) = evaluate g ind"
  by (simp add: evaluate_def evaluate_cache_def)

lemma evaluate_cache_valid: "isCacheValid ind \<Longrightarrow> evaluate_cache g ind = ind"
  by (simp add: evaluate_def evaluate_cache_def)

lemma data_flip_flip: "data (flip (flip X v) v) = data X"
  by (cases "nat (v - 1) < length (data X)") (simp_all add: flip_def list_update_beyond)

lemma evaluate_flip: "evaluate g (flip X v) = evaluate_loop (flip X v) (formula g) 0"
  by (simp add: evaluate_def flip_def)

lemma evaluate_coherent:
  "cache_coherent g X \<Longrightarrow> evaluate g X = evaluate_loop X (formula g) 0"
  by (simp add: evaluate_def cache_coherent_def)

text \<open>
  The fitness of an individual with a coherent cache is the number of clauses that
  \<open>sat\<close> rejects: it lies between \<open>0\<close> and the number of clauses and is \<open>0\<close> exactly when
  every clause is satisfied.
\<close>

theorem evaluate_counts_unsatisfied_clauses:
  assumes "cache_coherent g X"
  shows "evaluate g X = int (length (filter (\<lambda>c. \<not> sat X c) (formula g)))
       \<and> 0 \<le> evaluate g X \<and> evaluate g X \<le> int (length (formula g))
       \<and> (evaluate g X = 0 \<longleftrightarrow> list_all (sat X) (formula g))"
proof -
  have e: "evaluate g X = int (length (filter (\<lambda>c. \<not> sat X c) (formula g)))"
    using assms by (simp add: evaluate_coherent evaluate_loop_count)
  have "length (filter (\<lambda>c. \<not> sat X c) (formula g)) \<le> length (formula g)"
    by (rule length_filter_le)
  moreover have "(filter (\<lambda>c. \<not> sat X c) (formula g) = []) = list_all (sat X) (formula g)"
    by (auto simp: filter_empty_conv list_all_iff)
  ultimately show ?thesis using e by simp
qed

theorem evaluate_counts_unsatisfied_clauses_witness:
  "cache_coherent (GA_init [[1, 2], [-1], [2]] 3 2 5 5 5 5)
     \<lparr>data = [True, False], defined = [True, True], isCacheValid = False, fitness = 0\<rparr>
   \<and> evaluate (GA_init [[1, 2], [-1], [2]] 3 2 5 5 5 5)
     \<lparr>data = [True, False], defined = [True, True], isCacheValid = False, fitness = 0\<rparr> = 2"
proof -
  have c: "cache_coherent (GA_init [[1, 2], [-1], [2]] 3 2 5 5 5 5)
     \<lparr>data = [True, False], defined = [True, True], isCacheValid = False, fitness = 0\<rparr>"
    by (simp add: cache_coherent_def)
  from evaluate_counts_unsatisfied_clauses[OF c] c show ?thesis
    by (simp add: GA_init_def get_def)
qed

text \<open>
  Claim C7. For an individual with a coherent cache and a variable \<open>v\<close> in \<open>1..n\<close>,
  \<open>improvement\<close> is the fitness of the individual minus the fitness of the individual
  with \<open>v\<close> flipped; on the flipped individual it is the negation; and it is positive
  exactly when the flip lowers the number of unsatisfied clauses.
\<close>

theorem improvement_is_fitness_difference:
  assumes "cache_coherent g X" and "1 \<le> v" and "v \<le> int (length (data X))"
  shows "improvement g X v = evaluate g X - evaluate g (flip X v)
       \<and> improvement g (flip X v) v = - improvement g X v
       \<and> (0 < improvement g X v \<longleftrightarrow> evaluate g (flip X v) < evaluate g X)"
proof -
  from assms(2) have av: "abs v = v" by simp
  have "evaluate g (flip (flip X v) v) = evaluate_loop (flip (flip X v) v) (formula g) 0"
    by (rule evaluate_flip)
  also have "\<dots> = evaluate_loop X (formula g) 0"
    by (rule evaluate_loop_data_cong) (rule data_flip_flip)
  also have "\<dots> = evaluate g X"
    using assms(1) by (simp add: evaluate_coherent)
  finally have restored: "evaluate g (flip (flip X v) v) = evaluate g X" .
  show ?thesis
    by (simp add: improvement_def av restored)
qed

theorem improvement_is_fitness_difference_witness:
  "cache_coherent (GA_init [[1, 2], [-1], [2]] 3 2 5 5 5 5)
     \<lparr>data = [True, False], defined = [True, True], isCacheValid = False, fitness = 0\<rparr>
   \<and> improvement (GA_init [[1, 2], [-1], [2]] 3 2 5 5 5 5)
       \<lparr>data = [True, False], defined = [True, True], isCacheValid = False, fitness = 0\<rparr> 2 = 1
   \<and> improvement (GA_init [[1, 2], [-1], [2]] 3 2 5 5 5 5)
       (flip \<lparr>data = [True, False], defined = [True, True], isCacheValid = False, fitness = 0\<rparr> 2) 2
     = - 1"
  using improvement_is_fitness_difference
    [of "GA_init [[1, 2], [-1], [2]] 3 2 5 5 5 5"
        "\<lparr>data = [True, False], defined = [True, True], isCacheValid = False, fitness = 0\<rparr>" 2]
  by (simp add: cache_coherent_def improvement_def evaluate_def flip_def GA_init_def get_def)

subsection \<open>Corrective clause crossover\<close>



























subsection \<open>Fleurent and Ferland crossover\<close>

text \<open>
  Claim C6 at a failing input: the formula has the single clause \<open>(1)\<close>, one parent
  satisfies it and the other does not. The claim has the child take the satisfying
  parent's value; the code raises \<open>TypeError\<close>, whichever parent satisfies the clause.
\<close>

theorem fluerent_and_ferland_raises_TypeError:
  "sat \<lparr>data = [True], defined = [True], isCacheValid = False, fitness = 0\<rparr> [1]
   \<and> \<not> sat \<lparr>data = [False], defined = [True], isCacheValid = False, fitness = 0\<rparr> [1]
   \<and> fluerent_and_ferland (GA_init [[1]] 1 1 5 5 5 5)
       \<lparr>data = [False], defined = [False], isCacheValid = False, fitness = 0\<rparr>
       \<lparr>data = [True], defined = [True], isCacheValid = False, fitness = 0\<rparr>
       \<lparr>data = [False], defined = [True], isCacheValid = False, fitness = 0\<rparr>
     = Inl TypeError
   \<and> fluerent_and_ferland (GA_init [[1]] 1 1 5 5 5 5)
       \<lparr>data = [False], defined = [False], isCacheValid = False, fitness = 0\<rparr>
       \<lparr>data = [False], defined = [True], isCacheValid = False, fitness = 0\<rparr>
       \<lparr>data = [True], defined = [True], isCacheValid = False, fitness = 0\<rparr>
     = Inl TypeError"
  by (simp add: fluerent_and_ferland_def call_individual_def GA_init_def get_def)

subsection \<open>Replacement\<close>

text \<open>
  The calls of \<open>evaluate\<close> in \<open>max\<close> change caches only, so the fitness of every object
  is what it was; a child that is better than the weakest individual is discarded.
\<close>

lemma max_evaluate_loop_fitness:
  "max_evaluate_loop g items maxitem maxval h = (w, h')
     \<Longrightarrow> evaluate g (h' r) = evaluate g (h r)"
proof (induction items arbitrary: maxitem maxval h)
  case Nil
  then show ?case by simp
next
  case (Cons item rest)
  let ?h = "h(item := evaluate_cache g (h item))"
  have same: "evaluate g (?h r) = evaluate g (h r)"
    by (simp add: evaluate_evaluate_cache)
  from Cons.prems have
    "max_evaluate_loop g rest item (evaluate g (h item)) ?h = (w, h')
     \<or> max_evaluate_loop g rest maxitem maxval ?h = (w, h')"
    by (simp add: Let_def split: if_splits)
  then have "evaluate g (h' r) = evaluate g (?h r)"
    using Cons.IH by blast
  with same show ?case by simp
qed

lemma max_evaluate_fitness:
  "max_evaluate g items h = Inr (w, h') \<Longrightarrow> evaluate g (h' r) = evaluate g (h r)"
proof -
  assume a: "max_evaluate g items h = Inr (w, h')"
  then obtain first rest where items: "items = first # rest"
    by (cases items) (auto simp: max_evaluate_def)
  let ?h = "h(first := evaluate_cache g (h first))"
  from a items have "max_evaluate_loop g rest first (evaluate g (h first)) ?h = (w, h')"
    by (simp add: max_evaluate_def)
  from max_evaluate_loop_fitness[OF this, of r]
  show ?thesis by (simp add: evaluate_evaluate_cache)
qed

lemma replace_keeps_population_for_better_child:
  assumes "max_evaluate g (sub_population g) h = Inr (w, h1)"
    and "evaluate g (h child) < evaluate g (h w)"
  shows "\<exists>h'. replace g h child = Inr (g, h')"
proof -
  have e: "evaluate g (h1 r) = evaluate g (h r)" for r
    using assms(1) by (rule max_evaluate_fitness)
  have c: "evaluate g ((h1(w := evaluate_cache g (h1 w))) child) = evaluate g (h child)"
    by (simp add: e evaluate_evaluate_cache)
  from assms(2) have "\<not> \<not> evaluate g (h1 w) > evaluate g ((h1(w := evaluate_cache g (h1 w))) child)"
    by (simp only: c e) simp
  then show ?thesis
    using assms(1) by (simp add: replace_def Let_def)
qed

text \<open>
  Claim C2 at a failing input: the condition of \<open>replace\<close> is the negation of
  "the weakest is worse than the child". The formula is \<open>(1) \<and> (2)\<close>; the population and
  the sub-population hold the object at reference \<open>0\<close>, the child is the object at
  reference \<open>1\<close>, no cache is filled. A child of fitness \<open>0\<close> offered against a weakest
  individual of fitness \<open>2\<close> is discarded and the population stays as it was; a child of
  fitness \<open>2\<close> offered against a weakest individual of fitness \<open>0\<close> replaces it. In both
  runs the call leaves the caches of the two objects filled.
\<close>

theorem replace_discards_the_better_child:
  "replace
       ((GA_init [[1], [2]] 2 2 5 5 5 5)\<lparr>population := [0], sub_population := [0]\<rparr>)
       (\<lambda>r. if r = 0
            then \<lparr>data = [False, False], defined = [True, True], isCacheValid = False, fitness = 0\<rparr>
            else \<lparr>data = [True, True], defined = [True, True], isCacheValid = False, fitness = 0\<rparr>)
       1
     = Inr ((GA_init [[1], [2]] 2 2 5 5 5 5)\<lparr>population := [0], sub_population := [0]\<rparr>,
            \<lambda>r. if r = 0
              then \<lparr>data = [False, False], defined = [True, True], isCacheValid = True, fitness = 2\<rparr>
              else if r = 1
              then \<lparr>data = [True, True], defined = [True, True], isCacheValid = True, fitness = 0\<rparr>
              else \<lparr>data = [True, True], defined = [True, True], isCacheValid = False, fitness = 0\<rparr>)
   \<and> replace
       ((GA_init [[1], [2]] 2 2 5 5 5 5)\<lparr>population := [0], sub_population := [0]\<rparr>)
       (\<lambda>r. if r = 0
            then \<lparr>data = [True, True], defined = [True, True], isCacheValid = False, fitness = 0\<rparr>
            else \<lparr>data = [False, False], defined = [True, True], isCacheValid = False, fitness = 0\<rparr>)
       1
     = Inr ((GA_init [[1], [2]] 2 2 5 5 5 5)\<lparr>population := [1], sub_population := [0]\<rparr>,
            \<lambda>r. if r = 0
              then \<lparr>data = [True, True], defined = [True, True], isCacheValid = True, fitness = 0\<rparr>
              else if r = 1
              then \<lparr>data = [False, False], defined = [True, True], isCacheValid = True, fitness = 2\<rparr>
              else \<lparr>data = [False, False], defined = [True, True], isCacheValid = False, fitness = 0\<rparr>)"
  by (simp add: replace_def max_evaluate_def evaluate_def evaluate_cache_def GA_init_def get_def
      fun_eq_iff)

subsection \<open>Tabu search: the returned value and the tabu list\<close>

text \<open>Whenever \<open>standard_tabu\<close> returns, it returns \<open>None\<close>.\<close>

lemma standard_tabu_returns_None:
  "standard_tabu fuel g ind choose_function draws = Some (Inr (ret, g', draws')) \<Longrightarrow> ret = None"
  by (auto simp: standard_tabu_def Let_def split: option.splits sum.splits prod.splits)

text \<open>
  Claim C1 at a failing input: the formula is the clause \<open>(1)\<close> and the seed assigns
  false to variable \<open>1\<close>. The descent finds the satisfying assignment and stores it in
  \<open>self.best\<close>, but the call returns \<open>None\<close>, and that is what the driver binds to
  \<open>child\<close>.
\<close>

theorem standard_tabu_returns_None_not_the_best:
  "standard_tabu (Suc (Suc 0)) (GA_init [[1]] 1 1 5 5 5 5)
     \<lparr>data = [False], defined = [True], isCacheValid = False, fitness = 0\<rparr>
     standard_tabu_choose []
   = Some (Inr (None,
       (GA_init [[1]] 1 1 5 5 5 5)
         \<lparr>best := Some \<lparr>data = [True], defined = [True], isCacheValid = True, fitness = 0\<rparr>\<rparr>,
       []))"
  by (simp add: standard_tabu_def tabu_iteration_def tabu_flip_def standard_tabu_choose_def
      random_choice_def slice_to_def improvement_def evaluate_def evaluate_cache_def flip_def
      GA_init_def get_def)

text \<open>No step of \<open>standard_tabu\<close> adds a position to the tabu list.\<close>

lemma tabu_flip_keeps_tabu:
  "tabu_flip g fr index = Inr (g', fr') \<Longrightarrow> tabu g' = tabu g"
  by (auto simp: tabu_flip_def Let_def split: if_splits option.splits sum.splits)

lemma tabu_diversify_clause_keeps_tabu:
  "tabu_diversify_clause g fr i = Inr (g', fr') \<Longrightarrow> tabu g' = tabu g"
  by (auto simp: tabu_diversify_clause_def Let_def split: if_splits sum.splits prod.splits)

lemma tabu_diversify_keeps_tabu:
  "tabu_diversify g fr is = Inr (g', fr') \<Longrightarrow> tabu g' = tabu g"
proof (induction "is" arbitrary: g fr)
  case Nil
  then show ?case by simp
next
  case (Cons i rest)
  then show ?case
    by (auto split: sum.splits prod.splits dest: tabu_diversify_clause_keeps_tabu)
qed

lemma tabu_iteration_keeps_tabu:
  "tabu_iteration choose_function g fr draws = Inr (g', fr', draws') \<Longrightarrow> tabu g' = tabu g"
proof -
  assume run: "tabu_iteration choose_function g fr draws = Inr (g', fr', draws')"
  then obtain index d g1 fr1 where
    fl: "tabu_flip g fr index = Inr (g1, fr1)"
    and dv: "(is_diversification g1 \<and> tabu_diversify g1 fr1 [0..<length (formula g1)] = Inr (g', fr'))
             \<or> g' = g1"
    by (auto simp: tabu_iteration_def split: sum.splits prod.splits if_splits)
  from dv have "tabu g' = tabu g1"
    by (auto dest: tabu_diversify_keeps_tabu)
  with tabu_flip_keeps_tabu[OF fl] show ?thesis by simp
qed

lemma standard_tabu_loop_keeps_tabu:
  "standard_tabu_loop fuel choose_function g fr draws = Some (Inr (g', fr', draws'))
     \<Longrightarrow> tabu g' = tabu g"
proof (induction fuel arbitrary: g fr draws)
  case 0
  then show ?case by simp
next
  case (Suc fuel)
  from Suc.prems obtain b where b: "best g = Some b"
    by (auto split: option.splits)
  show ?case
  proof (cases "\<not> (evaluate g b = 0) \<and> max_flip g > num_flips fr")
    case True
    with Suc.prems b obtain g2 fr2 draws2 where
      it: "tabu_iteration choose_function (g\<lparr>best := Some (evaluate_cache g b)\<rparr>) fr draws = Inr (g2, fr2, draws2)"
      and rest: "standard_tabu_loop fuel choose_function g2 fr2 draws2 = Some (Inr (g', fr', draws'))"
      by (auto simp: Let_def split: sum.splits prod.splits)
    from tabu_iteration_keeps_tabu[OF it] Suc.IH[OF rest] show ?thesis by simp
  next
    case False
    with Suc.prems b show ?thesis by (auto simp: Let_def)
  qed
qed

lemma standard_tabu_never_appends:
  "standard_tabu fuel g ind choose_function draws = Some (Inr (ret, g', draws'))
     \<Longrightarrow> tabu g' = slice_to (tabu g) (tabu_list_length g)"
  by (auto simp: standard_tabu_def Let_def split: option.splits sum.splits prod.splits
      dest!: standard_tabu_loop_keeps_tabu)

text \<open>
  Whenever \<open>standard_tabu\<close> returns, the value returned is \<open>None\<close> and the tabu list is
  the list it had at entry, cut to \<open>tabu_list_length\<close>.
\<close>

theorem standard_tabu_tabu_list_only_truncated:
  "standard_tabu fuel g ind choose_function draws = Some (Inr (ret, g', draws'))
     \<Longrightarrow> ret = None \<and> tabu g' = slice_to (tabu g) (tabu_list_length g)"
  by (auto dest: standard_tabu_returns_None standard_tabu_never_appends)

theorem standard_tabu_tabu_list_only_truncated_witness:
  "standard_tabu (Suc (Suc 0)) (GA_init [[1]] 1 1 5 5 5 5)
     \<lparr>data = [False], defined = [True], isCacheValid = False, fitness = 0\<rparr>
     standard_tabu_choose []
   = Some (Inr (None,
       (GA_init [[1]] 1 1 5 5 5 5)
         \<lparr>best := Some \<lparr>data = [True], defined = [True], isCacheValid = True, fitness = 0\<rparr>\<rparr>,
       []))
   \<and> tabu ((GA_init [[1]] 1 1 5 5 5 5)
         \<lparr>best := Some \<lparr>data = [True], defined = [True], isCacheValid = True, fitness = 0\<rparr>\<rparr>)
     = slice_to (tabu (GA_init [[1]] 1 1 5 5 5 5)) (tabu_list_length (GA_init [[1]] 1 1 5 5 5 5))"
proof -
  have run: "standard_tabu (Suc (Suc 0)) (GA_init [[1]] 1 1 5 5 5 5)
     \<lparr>data = [False], defined = [True], isCacheValid = False, fitness = 0\<rparr>
     standard_tabu_choose []
   = Some (Inr (None,
       (GA_init [[1]] 1 1 5 5 5 5)
         \<lparr>best := Some \<lparr>data = [True], defined = [True], isCacheValid = True, fitness = 0\<rparr>\<rparr>,
       []))"
    by (simp add: standard_tabu_def tabu_iteration_def tabu_flip_def standard_tabu_choose_def
      random_choice_def slice_to_def improvement_def evaluate_def evaluate_cache_def flip_def
      GA_init_def get_def)
  from standard_tabu_tabu_list_only_truncated[OF run] run show ?thesis by simp
qed

text \<open>
  Claim C4 at a failing input: the formula has the clauses \<open>(1)\<close> and \<open>(2)\<close>, both
  variables are false and the tabu list is empty. The iteration chooses position \<open>1\<close>,
  flips it and increments the flip counter from \<open>0\<close> to \<open>1\<close>, but the tabu list is
  still empty afterwards.
\<close>

theorem tabu_iteration_leaves_tabu_list_empty:
  "tabu ((GA_init [[1], [2]] 2 2 5 5 5 5)
      \<lparr>best := Some \<lparr>data = [False, False], defined = [True, True], isCacheValid = True, fitness = 2\<rparr>\<rparr>) = []
   \<and> tabu_iteration standard_tabu_choose
       ((GA_init [[1], [2]] 2 2 5 5 5 5)
         \<lparr>best := Some \<lparr>data = [False, False], defined = [True, True], isCacheValid = True, fitness = 2\<rparr>\<rparr>)
       \<lparr>individual_in = \<lparr>data = [False, False], defined = [True, True], isCacheValid = True, fitness = 2\<rparr>,
        num_flips = 0, forbidden_flips = []\<rparr>
       []
     = Inr ((GA_init [[1], [2]] 2 2 5 5 5 5)
              \<lparr>best := Some \<lparr>data = [True, False], defined = [True, True], isCacheValid = True, fitness = 1\<rparr>\<rparr>,
            \<lparr>individual_in = \<lparr>data = [True, False], defined = [True, True], isCacheValid = True, fitness = 1\<rparr>,
             num_flips = 1, forbidden_flips = []\<rparr>,
            [])
   \<and> tabu ((GA_init [[1], [2]] 2 2 5 5 5 5)
        \<lparr>best := Some \<lparr>data = [True, False], defined = [True, True], isCacheValid = True, fitness = 1\<rparr>\<rparr>) = []"
  by (simp add: tabu_iteration_def tabu_flip_def standard_tabu_choose_def
      random_choice_def improvement_def evaluate_def evaluate_cache_def flip_def
      GA_init_def get_def)

subsection \<open>Diversification\<close>

text \<open>
  The aging loop reads the dictionary at the loop index \<open>0\<close> first, although its keys
  are variables: it raises \<open>KeyError\<close> whenever the dictionary is not empty and \<open>0\<close> is
  not a key.
\<close>

theorem aging_raises_KeyError:
  assumes "forbidden \<noteq> []" and "map_of forbidden 0 = None"
  shows "age_forbidden_flips kk [0..<length forbidden] forbidden = Inl KeyError"
proof -
  from assms(1) obtain n where n: "length forbidden = Suc n" by (cases forbidden) auto
  have "[0..<Suc n] = 0 # [1..<Suc n]" by (simp add: upt_rec)
  with n assms(2) show ?thesis by (simp add: dict_get_def)
qed

theorem aging_raises_KeyError_witness:
  "[(1, 0)] \<noteq> ([] :: (int \<times> int) list) \<and> map_of [(1 :: int, 0 :: int)] 0 = None
   \<and> age_forbidden_flips 5 [0..<length [(1 :: int, 0 :: int)]] [(1, 0)] = Inl KeyError"
proof -
  have a: "[(1 :: int, 0 :: int)] \<noteq> []" by simp
  have b: "map_of [(1 :: int, 0 :: int)] 0 = None" by simp
  from aging_raises_KeyError[OF a b, of 5] a b show ?thesis by simp
qed

text \<open>
  The cascading loop inside \<open>standard_tabu\<close> flips a variable only when it is not a key
  of the forbidden flips.
\<close>

lemma tabu_nested_flip_respects_forbidden:
  assumes "tabu_nested_flip g (individual_temp, forbidden) nested_clause = Inr (individual_temp', forbidden')"
  shows "data individual_temp' = data individual_temp
       \<or> (\<exists>pos. map_of forbidden pos = None \<and> individual_temp' = flip (evaluate_cache g individual_temp) pos)"
  using assms
  by (auto simp: tabu_nested_flip_def Let_def evaluate_cache_def split: sum.splits if_splits)

text \<open>
  Claim C8 at a failing input: \<open>check_flip\<close> on the clause \<open>(-1)\<close> with variable \<open>1\<close>
  already in the dictionary (count \<open>1\<close>, \<open>k = 5\<close>). The literal \<open>-1\<close> is not a key, so it
  stays eligible, and the variable is flipped although it is in the dictionary. The
  state arises inside \<open>tabu_with_diversification\<close>: its first \<open>check_flip\<close> flips
  variable \<open>1\<close> and enters it, and the cascading call flips it back.
\<close>

theorem check_flip_flips_a_forbidden_variable:
  "map_of [(1, 1 :: int)] (1 :: int) = Some 1
   \<and> check_flip (GA_init [[-1]] 1 1 5 1 1 5)
       \<lparr>data = [True], defined = [True], isCacheValid = False, fitness = 0\<rparr> [-1] [(1, 1)]
     = Inr (\<lparr>data = [False], defined = [True], isCacheValid = False, fitness = 1\<rparr>, [(1, 2)])
   \<and> tabu_with_diversification (GA_init [[-1]] 1 1 5 1 1 5)
       \<lparr>data = [True], defined = [True], isCacheValid = False, fitness = 0\<rparr>
     = Inr (\<lparr>data = [True], defined = [True], isCacheValid = False, fitness = 0\<rparr>,
            GA_init [[-1]] 1 1 5 1 1 5)"
  by (simp add: tabu_with_diversification_def check_flip_def max_key_def improvement_def
      evaluate_def evaluate_cache_def flip_def GA_init_def get_def)

lemma max_key_Nil: "max_key key [] = Inl ValueError"
  by (simp add: max_key_def)

text \<open>
  When the filter of the code leaves no literal of the clause (every literal, as a
  signed number, is a key of the forbidden map), \<open>check_flip\<close> and the cascading step of
  \<open>standard_tabu\<close> raise the \<open>ValueError\<close> of \<open>max\<close>, and the loops that call them end with
  the same error.
\<close>

lemma empty_filter_raises_ValueError:
  assumes "filter (\<lambda>c. map_of forbidden c = None) clause = []"
  shows "check_flip g ind clause forbidden = Inl ValueError
       \<and> twd_nested g (clause # rest) (ind, forbidden) = Inl ValueError
       \<and> twd_clauses g original (clause # rest) (ind, forbidden) = Inl ValueError
       \<and> tabu_nested_flip g (ind, forbidden) clause = Inl ValueError
       \<and> tabu_nested g (clause # rest) (ind, forbidden) = Inl ValueError"
proof -
  have cf: "check_flip g ind clause forbidden = Inl ValueError"
    using assms by (simp add: check_flip_def max_key_Nil)
  have nf: "tabu_nested_flip g (ind, forbidden) clause = Inl ValueError"
    using assms by (simp add: tabu_nested_flip_def max_key_Nil)
  from cf nf show ?thesis by simp
qed

text \<open>
  An error of a step is the result of every enclosing loop, up to the caller of
  \<open>standard_tabu\<close>.
\<close>

lemma tabu_rec_propagates:
  "tabu_nested g (map (\<lambda>x. formula g ! x)
       (filter (\<lambda>x. sat (fst st) (formula g ! i) \<and> \<not> sat current (formula g ! i))
          [0..<length (formula g)])) st = Inl e
   \<Longrightarrow> tabu_rec (Suc n) g i current st = Inl e"
  by simp

lemma tabu_diversify_propagates:
  "tabu_diversify_clause g fr i = Inl e \<Longrightarrow> tabu_diversify g fr (i # rest) = Inl e"
  by simp

lemma tabu_iteration_propagates:
  "choose_function g (individual_in fr) draws = Inr (index, draws')
   \<Longrightarrow> tabu_flip g fr index = Inr (g1, fr1) \<Longrightarrow> is_diversification g1
   \<Longrightarrow> tabu_diversify g1 fr1 [0..<length (formula g1)] = Inl e
   \<Longrightarrow> tabu_iteration choose_function g fr draws = Inl e"
  by (simp add: tabu_iteration_def)

lemma standard_tabu_loop_propagates:
  "best g = Some b \<Longrightarrow> evaluate g b \<noteq> 0 \<Longrightarrow> num_flips fr < max_flip g
   \<Longrightarrow> tabu_iteration choose_function (g\<lparr>best := Some (evaluate_cache g b)\<rparr>) fr draws = Inl e
   \<Longrightarrow> standard_tabu_loop (Suc fuel) choose_function g fr draws = Some (Inl e)"
  by (simp add: Let_def)

lemma standard_tabu_propagates:
  "standard_tabu_loop fuel choose_function
      (g\<lparr>tabu := slice_to (tabu g) (tabu_list_length g), best := Some ind\<rparr>)
      \<lparr>individual_in = evaluate_cache (g\<lparr>tabu := slice_to (tabu g) (tabu_list_length g), best := Some ind\<rparr>) ind,
       num_flips = 0, forbidden_flips = []\<rparr> draws = Some (Inl e)
   \<Longrightarrow> standard_tabu fuel g ind choose_function draws = Some (Inl e)"
  by (simp add: standard_tabu_def Let_def)

text \<open>
  Runs that end with the error: \<open>check_flip\<close> on the clause \<open>(1)\<close> with the key \<open>1\<close> in the
  map, \<open>tabu_with_diversification\<close> and \<open>standard_tabu\<close>.
\<close>

lemma empty_filter_raises_ValueError_runs:
  "check_flip (GA_init [[1]] 1 1 5 1 1 5)
      \<lparr>data = [True], defined = [True], isCacheValid = False, fitness = 0\<rparr> [1] [(1, 1)]
     = Inl ValueError
   \<and> tabu_with_diversification (GA_init [[1]] 1 1 5 1 1 5)
      \<lparr>data = [False], defined = [True], isCacheValid = False, fitness = 0\<rparr>
     = Inl ValueError
   \<and> standard_tabu (Suc (Suc 0)) ((GA_init [[1], [-1]] 2 1 5 1 1 5)\<lparr>is_diversification := True\<rparr>)
       \<lparr>data = [False], defined = [True], isCacheValid = False, fitness = 0\<rparr>
       standard_tabu_choose []
     = Some (Inl ValueError)"
proof -
  have empty: "filter (\<lambda>c. map_of [(1, 1 :: int)] c = None) [1 :: int] = []" by simp
  note raised = empty_filter_raises_ValueError[OF empty,
      of "GA_init [[1]] 1 1 5 1 1 5"
         "\<lparr>data = [True], defined = [True], isCacheValid = False, fitness = 0\<rparr>"]
  have twd: "tabu_with_diversification (GA_init [[1]] 1 1 5 1 1 5)
      \<lparr>data = [False], defined = [True], isCacheValid = False, fitness = 0\<rparr> = Inl ValueError"
    by (simp add: tabu_with_diversification_def check_flip_def max_key_def improvement_def
        evaluate_def evaluate_cache_def flip_def GA_init_def get_def)
  have st: "standard_tabu (Suc (Suc 0)) ((GA_init [[1], [-1]] 2 1 5 1 1 5)\<lparr>is_diversification := True\<rparr>)
       \<lparr>data = [False], defined = [True], isCacheValid = False, fitness = 0\<rparr>
       standard_tabu_choose [] = Some (Inl ValueError)"
    by (simp add: standard_tabu_def tabu_iteration_def tabu_flip_def standard_tabu_choose_def
      tabu_diversify_clause_def tabu_nested_flip_def max_key_def
      random_choice_def slice_to_def improvement_def evaluate_def evaluate_cache_def flip_def
      GA_init_def get_def)
  from raised twd st show ?thesis by simp
qed

text \<open>
  Claim C9 at a failing input: the clause \<open>(-1)\<close> with variable \<open>1\<close> in the forbidden map.
  No literal of the clause has a variable outside the map, but the filter of the code
  compares the signed literal \<open>-1\<close> with the keys and keeps it, so \<open>max\<close> has an argument
  and raises nothing. The cascading step of \<open>standard_tabu\<close> skips the clause without a
  flip and without an error, \<open>check_flip\<close> flips the forbidden variable, and the run of
  \<open>standard_tabu\<close> that reaches this state (formula \<open>(-1)\<close>, two variables, values
  \<open>[1, 0]\<close>, a choice function that returns position \<open>2\<close>, \<open>max_flip = 1\<close>,
  \<open>max_false = 1\<close>, \<open>rec = 1\<close>, diversification on) returns to its caller without an
  error.
\<close>

theorem forbidden_negated_literal_raises_no_error:
  "filter (\<lambda>c. map_of [(1, 0 :: int)] (abs c) = None) [-1 :: int] = []
   \<and> filter (\<lambda>c. map_of [(1, 0 :: int)] c = None) [-1 :: int] = [-1]
   \<and> tabu_nested_flip
       ((GA_init [[-1]] 1 2 5 1 1 5)\<lparr>is_diversification := True, max_flip := 1\<rparr>)
       (\<lparr>data = [False, True], defined = [True, True], isCacheValid = False, fitness = 1\<rparr>, [(1, 0)])
       [-1]
     = Inr (\<lparr>data = [False, True], defined = [True, True], isCacheValid = True, fitness = 0\<rparr>,
            [(1, 0)])
   \<and> check_flip
       ((GA_init [[-1]] 1 2 5 1 1 5)\<lparr>is_diversification := True, max_flip := 1\<rparr>)
       \<lparr>data = [False, True], defined = [True, True], isCacheValid = False, fitness = 1\<rparr>
       [-1] [(1, 0)]
     = Inr (\<lparr>data = [True, True], defined = [True, True], isCacheValid = False, fitness = 0\<rparr>,
            [(1, 1)])
   \<and> standard_tabu (Suc (Suc 0))
       ((GA_init [[-1]] 1 2 5 1 1 5)\<lparr>is_diversification := True, max_flip := 1\<rparr>)
       \<lparr>data = [True, False], defined = [True, True], isCacheValid = False, fitness = 0\<rparr>
       (\<lambda>g individual draws. Inr ((2, [2]), draws)) []
     = Some (Inr (None,
         (GA_init [[-1]] 1 2 5 1 1 5)
           \<lparr>is_diversification := True, max_flip := 1,
            best := Some \<lparr>data = [True, False], defined = [True, True], isCacheValid = True, fitness = 1\<rparr>\<rparr>,
         []))"
  by (simp add: standard_tabu_def tabu_iteration_def tabu_flip_def
      tabu_diversify_clause_def tabu_nested_flip_def check_flip_def max_key_def
      slice_to_def improvement_def evaluate_def evaluate_cache_def flip_def
      GA_init_def get_def)

end
